theory Spec2Isabelle
  imports Complex_Main "HOL-Library.Log_Nat"
begin

section \<open>Values, failures and observable effects\<close>

text \<open>
  The module \<open>src/apiService.ts\<close> talks to a remote HTTP service through axios and wraps
  every call in a bounded retry loop. The embedding below keeps the shape of the source:
  \<^item> a value that arrives in \<open>response.data\<close> is a JavaScript value built from JSON;
  \<^item> a rejected promise (a \<open>throw\<close>) is the left summand of a sum type;
  \<^item> sleeping and console output are recorded, in order, in a list of events.
\<close>

datatype jsval =
    JUndefined
  | JNull
  | JBool bool
  | JNum rat
  | JStr string
  | JArr "jsval list"
  | JObj "(string \<times> jsval) list"

text \<open>
  The literal texts of the four \<open>new Error(...)\<close> expressions are not ASCII, so each is a
  constructor named after the function that throws it (source lines 99, 137, 167, 210).
  The list failure interpolates \<open>response.data?.error_msg\<close> when that value is truthy
  and a fixed fallback text otherwise.
\<close>

datatype error_text =
    LoginInvalid
  | ListFailed "jsval option"
  | TbsFailed
  | SignEmpty

text \<open>
  What can be thrown inside an attempt: an \<open>AxiosError\<close> (with the status of the response
  when a response arrived, and its message), a \<open>TypeError\<close> of the runtime for a property
  read on \<open>undefined\<close> or \<open>null\<close> (carrying the property name), or one of the module's own
  \<open>Error\<close> objects. Only an \<open>AxiosError\<close> has a \<open>response\<close> property.
\<close>

datatype js_error =
    AxiosError "int option" string
  | TypeError string
  | JsError error_text

fun response_status :: "js_error \<Rightarrow> int option" where
  "response_status (AxiosError st msg) = st"
| "response_status (TypeError k) = None"
| "response_status (JsError t) = None"

text \<open>Line 52: \<open>axiosError.response && axiosError.response.status === 429\<close>.\<close>

definition isRateLimited :: "js_error \<Rightarrow> bool" where
  "isRateLimited e = (case response_status e of None \<Rightarrow> False | Some st \<Rightarrow> st = 429)"

text \<open>Line 54, second disjunct without the \<open>!isRateLimited\<close> factor:
  \<open>axiosError.response && status >= 400 && status < 500\<close>.\<close>

definition isClientError :: "js_error \<Rightarrow> bool" where
  "isClientError e = (case response_status e of None \<Rightarrow> False | Some st \<Rightarrow> 400 \<le> st \<and> st < 500)"

section \<open>JavaScript numbers\<close>

text \<open>
  \<open>delay\<close>, \<open>initialDelay\<close> and \<open>delayMultiplier\<close> are JavaScript numbers: IEEE 754
  double-precision values. \<open>Fin q\<close> is the finite double of value \<open>q\<close> (the sign of zero is
  not distinguished: it changes neither a product's magnitude nor what the console
  prints); the other three values are the infinities and NaN.

  \<open>round_double\<close> is the rounding that every arithmetic operation on doubles applies to
  its exact result: to the nearest value with a 53-bit significand, ties to the even
  significand, with the exponent range of doubles (gradual underflow below
  \<open>2 ^ (-1022)\<close>, overflow to infinity from \<open>2 ^ 1024\<close> on). \<open>ilog2 a\<close> is the exponent \<open>e\<close>
  with \<open>2 ^ e \<le> a < 2 ^ (e + 1)\<close> for positive \<open>a\<close>.
\<close>

datatype jsnum = Fin rat | PosInf | NegInf | NaN

definition pow2 :: "int \<Rightarrow> rat" where
  "pow2 e = (if 0 \<le> e then 2 ^ nat e else 1 / 2 ^ nat (- e))"

definition ilog2 :: "rat \<Rightarrow> int" where
  "ilog2 a = (if 1 \<le> a then bitlen \<lfloor>a\<rfloor> - 1 else - bitlen (\<lceil>1 / a\<rceil> - 1))"

definition round_half_even :: "rat \<Rightarrow> int" where
  "round_half_even q =
     (let f = \<lfloor>q\<rfloor>; r = q - of_int f
      in if r < 1 / 2 then f else if 1 / 2 < r then f + 1 else if even f then f else f + 1)"

definition round_double :: "rat \<Rightarrow> jsnum" where
  "round_double q =
     (if q = 0 then Fin 0
      else let a = \<bar>q\<bar>;
               e = max (ilog2 a) (- 1022);
               ulp = pow2 (e - 52);
               r = of_int (round_half_even (a / ulp)) * ulp
           in if pow2 1024 \<le> r then (if q < 0 then NegInf else PosInf)
              else Fin (if q < 0 then - r else r))"

text \<open>The operator \<open>*\<close> of lines 62 and 65.\<close>

fun js_mul :: "jsnum \<Rightarrow> jsnum \<Rightarrow> jsnum" where
  "js_mul (Fin a) (Fin b) = round_double (a * b)"
| "js_mul NaN y = NaN"
| "js_mul x NaN = NaN"
| "js_mul (Fin a) PosInf = (if a = 0 then NaN else if 0 < a then PosInf else NegInf)"
| "js_mul (Fin a) NegInf = (if a = 0 then NaN else if 0 < a then NegInf else PosInf)"
| "js_mul PosInf (Fin b) = (if b = 0 then NaN else if 0 < b then PosInf else NegInf)"
| "js_mul NegInf (Fin b) = (if b = 0 then NaN else if 0 < b then NegInf else PosInf)"
| "js_mul PosInf PosInf = PosInf"
| "js_mul PosInf NegInf = NegInf"
| "js_mul NegInf PosInf = NegInf"
| "js_mul NegInf NegInf = PosInf"

section \<open>Events\<close>

text \<open>
  Events of one run of \<open>withRetry\<close>, oldest first. The console events keep the values that
  the template strings of lines 55, 63 and 66 interpolate.
\<close>

datatype 'l event =
    Invoke nat
  | ConsoleError 'l nat js_error
  | WarnRateLimited jsnum nat int
  | WarnRetry 'l jsnum nat int
  | Sleep jsnum

section \<open>The retry loop\<close>

definition MAX_RETRIES :: int where "MAX_RETRIES = 3"
definition RETRY_DELAY :: jsnum where "RETRY_DELAY = Fin 3000"
definition RETRY_MULTIPLIER :: jsnum where "RETRY_MULTIPLIER = Fin 2"

text \<open>
  \<open>withRetry\<close> (lines 33 to 72). The wrapped operation \<open>requestFn\<close> takes no argument and
  is run once per loop iteration; its outcome at the invocation with index \<open>i\<close> (counted
  from 0) is \<open>requestFn i\<close>. Since \<open>retries\<close> goes up by one at every failure and a success
  returns, the index of the current invocation is the current value of \<open>retries\<close>.
  The delay and the multiplier are JavaScript numbers and their products are rounded as
  the runtime rounds them. \<open>maxRetries\<close> is an integer count: the function is private to
  the module and every caller leaves it at the default 3.
\<close>

function withRetry_loop ::
  "(nat \<Rightarrow> js_error + 'a) \<Rightarrow> 'l \<Rightarrow> int \<Rightarrow> jsnum \<Rightarrow> nat \<Rightarrow> jsnum \<Rightarrow> (js_error + 'a) \<times> 'l event list"
where
  "withRetry_loop requestFn operationName maxRetries delayMultiplier retries delay =
     (case requestFn retries of
        Inr v \<Rightarrow> (Inr v, [Invoke retries])
      | Inl err \<Rightarrow>
          (let retries' = retries + 1 in
           if int retries' > maxRetries \<or> (\<not> isRateLimited err \<and> isClientError err)
           then (Inl err, [Invoke retries, ConsoleError operationName retries' err])
           else if isRateLimited err
           then (let delay' = js_mul (js_mul delay delayMultiplier) (Fin 2);
                     (res, evs) = withRetry_loop requestFn operationName maxRetries
                                    delayMultiplier retries' delay'
                 in (res, Invoke retries # WarnRateLimited delay' retries' maxRetries
                            # Sleep delay' # evs))
           else (let delay' = js_mul delay delayMultiplier;
                     (res, evs) = withRetry_loop requestFn operationName maxRetries
                                    delayMultiplier retries' delay'
                 in (res, Invoke retries # WarnRetry operationName delay' retries' maxRetries
                            # Sleep delay' # evs))))"
  by pat_completeness auto
termination
  by (relation "measure (\<lambda>(f, l, m, k, r, d). nat (m + 1 - int r))") auto

definition withRetry ::
  "(nat \<Rightarrow> js_error + 'a) \<Rightarrow> 'l \<Rightarrow> int \<Rightarrow> jsnum \<Rightarrow> jsnum \<Rightarrow> (js_error + 'a) \<times> 'l event list"
where
  "withRetry requestFn operationName maxRetries initialDelay delayMultiplier =
     withRetry_loop requestFn operationName maxRetries delayMultiplier 0 initialDelay"

fun attempts :: "'l event list \<Rightarrow> nat" where
  "attempts [] = 0"
| "attempts (Invoke i # evs) = Suc (attempts evs)"
| "attempts (ev # evs) = attempts evs"

fun sleeps :: "'l event list \<Rightarrow> jsnum list" where
  "sleeps [] = []"
| "sleeps (Sleep d # evs) = d # sleeps evs"
| "sleeps (ev # evs) = sleeps evs"

declare withRetry_loop.simps [simp del]

section \<open>JavaScript value operations used by the endpoint functions\<close>

text \<open>Truthiness, as \<open>!x\<close> and \<open>x || y\<close> see it.\<close>

fun truthy :: "jsval \<Rightarrow> bool" where
  "truthy JUndefined = False"
| "truthy JNull = False"
| "truthy (JBool b) = b"
| "truthy (JNum n) = (n \<noteq> 0)"
| "truthy (JStr s) = (s \<noteq> [])"
| "truthy (JArr xs) = True"
| "truthy (JObj kvs) = True"

text \<open>
  A property read \<open>v.k\<close>. On \<open>undefined\<close> and \<open>null\<close> the runtime throws a \<open>TypeError\<close>; on
  an object it yields the field or \<open>undefined\<close>; on the other values it yields \<open>undefined\<close>
  for each property name this module reads (\<open>no\<close>, \<open>error\<close>, \<open>error_msg\<close>, \<open>data\<close>,
  \<open>user_id\<close>, \<open>like_forum\<close>, \<open>tbs\<close>), none of which is a built-in property.
\<close>

fun get_prop :: "jsval \<Rightarrow> string \<Rightarrow> js_error + jsval" where
  "get_prop JUndefined k = Inl (TypeError k)"
| "get_prop JNull k = Inl (TypeError k)"
| "get_prop (JObj kvs) k = Inr (case map_of kvs k of None \<Rightarrow> JUndefined | Some v \<Rightarrow> v)"
| "get_prop v k = Inr JUndefined"

text \<open>Optional chaining \<open>v?.k\<close> (line 137).\<close>

definition opt_prop :: "jsval \<Rightarrow> string \<Rightarrow> jsval" where
  "opt_prop v k = (case get_prop v k of Inl e \<Rightarrow> JUndefined | Inr x \<Rightarrow> x)"

text \<open>Sequencing of a property read with the rest of the attempt: a throw ends it.\<close>

definition rd :: "jsval \<Rightarrow> string \<Rightarrow> (jsval \<Rightarrow> js_error + 'a) \<Rightarrow> js_error + 'a" where
  "rd v k cont = (case get_prop v k of Inl e \<Rightarrow> Inl e | Inr x \<Rightarrow> cont x)"

section \<open>Requests and the transport\<close>

datatype http_method = GET | POST

record request =
  req_method :: http_method
  req_url :: string
  req_headers :: "(string \<times> string) list"
  req_body :: "string option"

text \<open>
  The transport is the environment: \<open>axios req i\<close> is what the call of \<open>axios.get\<close> or
  \<open>axios.post\<close> with request \<open>req\<close> does in invocation \<open>i\<close> of the wrapped operation. It either
  rejects (\<open>Inl\<close>) or resolves with a response, of which the module reads only \<open>data\<close>
  (\<open>Inr\<close>).
\<close>

type_synonym transport = "request \<Rightarrow> nat \<Rightarrow> js_error + jsval"

text \<open>The four operation names passed to \<open>withRetry\<close> (lines 114, 146, 171, 214); their
  texts are not ASCII.\<close>

datatype op_label = Label_login | Label_getTiebaList | Label_getTbs | Label_signTieba

definition mobile_user_agent :: string where
  "mobile_user_agent = ''Mozilla/5.0 (iPhone; CPU iPhone OS 14_0 like Mac OS X) AppleWebKit/605.1.15 (KHTML, like Gecko) Mobile/15E148 Safari/604.1''"

definition desktop_user_agent :: string where
  "desktop_user_agent = ''Mozilla/5.0 (Windows NT 10.0; Win64; x64) AppleWebKit/537.36 (KHTML, like Gecko) Chrome/84.0.4147.135 Safari/537.36 Edg/84.0.522.63''"

section \<open>login\<close>

record UserInfo =
  status :: int
  bduss :: string
  userId :: jsval
  isValid :: bool
  deviceId :: string

text \<open>
  Modelled from the spec: \<open>generateDeviceId\<close> is imported from \<open>./utils\<close>, which is not among
  the sources. The spec describes it as a helper that produces a device identifier for a
  successful authentication result and requires that identifier to be non-empty. The
  string it returns is a parameter of \<open>login\<close>; \<open>device_id_ok\<close> is the spec's requirement.
\<close>

definition device_id_ok :: "string \<Rightarrow> bool" where
  "device_id_ok d = (d \<noteq> [])"

definition login_request :: "string \<Rightarrow> request" where
  "login_request bduss_arg =
     \<lparr> req_method = GET,
       req_url = ''https://tieba.baidu.com/mo/q/sync'',
       req_headers =
         [(''Cookie'', ''BDUSS='' @ bduss_arg),
          (''Accept'', ''application/json, text/javascript, */*; q=0.01''),
          (''Accept-Encoding'', ''gzip, deflate, br''),
          (''Accept-Language'', ''zh-CN,zh;q=0.9,en;q=0.8,en-GB;q=0.7,en-US;q=0.6''),
          (''Connection'', ''keep-alive''),
          (''Host'', ''tieba.baidu.com''),
          (''Referer'', ''https://tieba.baidu.com/home/main''),
          (''User-Agent'', mobile_user_agent)],
       req_body = None \<rparr>"

text \<open>One run of the closure of lines 80 to 114, given what \<open>axios.get\<close> did.\<close>

definition login_attempt :: "string \<Rightarrow> string \<Rightarrow> js_error + jsval \<Rightarrow> js_error + UserInfo" where
  "login_attempt bduss_arg generateDeviceId got =
     (case got of
        Inl e \<Rightarrow> Inl e
      | Inr data \<Rightarrow>
          if \<not> truthy data then Inl (JsError LoginInvalid)
          else rd data ''no'' (\<lambda>no.
            if no \<noteq> JNum 0 then Inl (JsError LoginInvalid)
            else rd data ''error'' (\<lambda>err.
              if err \<noteq> JStr ''success'' then Inl (JsError LoginInvalid)
              else rd data ''data'' (\<lambda>d. rd d ''user_id'' (\<lambda>uid.
                Inr \<lparr> status = 200, bduss = bduss_arg, userId = uid, isValid = True,
                      deviceId = generateDeviceId \<rparr>)))))"

definition login ::
  "transport \<Rightarrow> string \<Rightarrow> string \<Rightarrow> (js_error + UserInfo) \<times> op_label event list" where
  "login axios generateDeviceId bduss_arg =
     withRetry (\<lambda>i. login_attempt bduss_arg generateDeviceId (axios (login_request bduss_arg) i))
       Label_login MAX_RETRIES RETRY_DELAY RETRY_MULTIPLIER"

section \<open>getTiebaList\<close>

definition list_request :: "string \<Rightarrow> request" where
  "list_request bduss_arg =
     \<lparr> req_method = GET,
       req_url = ''https://tieba.baidu.com/mo/q/newmoindex'',
       req_headers =
         [(''Cookie'', ''BDUSS='' @ bduss_arg),
          (''Content-Type'', ''application/octet-stream''),
          (''Referer'', ''https://tieba.baidu.com/index/tbwise/forum''),
          (''User-Agent'', mobile_user_agent)],
       req_body = None \<rparr>"

text \<open>Line 137: the error built from \<open>response.data?.error_msg || fallback\<close>.\<close>

definition list_error :: "jsval \<Rightarrow> js_error" where
  "list_error data =
     (let m = opt_prop data ''error_msg''
      in JsError (ListFailed (if truthy m then Some m else None)))"

text \<open>
  One run of the closure of lines 123 to 146. The result is the value of
  \<open>response.data.data.like_forum || []\<close>. The \<open>console.log\<close> of line 143 reads \<open>length\<close> of
  that value, which is truthy, so the read cannot throw.
\<close>

definition getTiebaList_attempt :: "js_error + jsval \<Rightarrow> js_error + jsval" where
  "getTiebaList_attempt got =
     (case got of
        Inl e \<Rightarrow> Inl e
      | Inr data \<Rightarrow>
          if \<not> truthy data then Inl (list_error data)
          else rd data ''error'' (\<lambda>err.
            if err \<noteq> JStr ''success'' then Inl (list_error data)
            else rd data ''data'' (\<lambda>d. rd d ''like_forum'' (\<lambda>lf.
              Inr (if truthy lf then lf else JArr [])))))"

definition getTiebaList ::
  "transport \<Rightarrow> string \<Rightarrow> (js_error + jsval) \<times> op_label event list" where
  "getTiebaList axios bduss_arg =
     withRetry (\<lambda>i. getTiebaList_attempt (axios (list_request bduss_arg) i))
       Label_getTiebaList MAX_RETRIES RETRY_DELAY RETRY_MULTIPLIER"

section \<open>getTbs\<close>

definition tbs_request :: "string \<Rightarrow> request" where
  "tbs_request bduss_arg =
     \<lparr> req_method = GET,
       req_url = ''http://tieba.baidu.com/dc/common/tbs'',
       req_headers =
         [(''Cookie'', ''BDUSS='' @ bduss_arg),
          (''User-Agent'', mobile_user_agent)],
       req_body = None \<rparr>"

text \<open>One run of the closure of lines 155 to 171.\<close>

definition getTbs_attempt :: "js_error + jsval \<Rightarrow> js_error + jsval" where
  "getTbs_attempt got =
     (case got of
        Inl e \<Rightarrow> Inl e
      | Inr data \<Rightarrow>
          if \<not> truthy data then Inl (JsError TbsFailed)
          else rd data ''tbs'' (\<lambda>t.
            if \<not> truthy t then Inl (JsError TbsFailed)
            else rd data ''tbs'' Inr))"

definition getTbs ::
  "transport \<Rightarrow> string \<Rightarrow> (js_error + jsval) \<times> op_label event list" where
  "getTbs axios bduss_arg =
     withRetry (\<lambda>i. getTbs_attempt (axios (tbs_request bduss_arg) i))
       Label_getTbs MAX_RETRIES RETRY_DELAY RETRY_MULTIPLIER"

section \<open>signTieba\<close>

text \<open>
  \<open>toQueryString\<close> is imported from \<open>./utils\<close>, which is not among the sources; it is a
  parameter. The parameter \<open>index\<close> of \<open>signTieba\<close> occurs nowhere in its body.
\<close>

definition sign_request ::
  "((string \<times> string) list \<Rightarrow> string) \<Rightarrow> string \<Rightarrow> string \<Rightarrow> string \<Rightarrow> request" where
  "sign_request toQueryString bduss_arg tiebaName tbs =
     \<lparr> req_method = POST,
       req_url = ''https://c.tieba.baidu.com/c/c/forum/sign'',
       req_headers =
         [(''Cookie'', ''BDUSS='' @ bduss_arg),
          (''Accept'', ''application/json, text/javascript, */*; q=0.01''),
          (''Accept-Encoding'', ''gzip,deflate,br''),
          (''Accept-Language'', ''zh-CN,zh;q=0.9,en;q=0.8,en-GB;q=0.7,en-US;q=0.6''),
          (''Content-Type'', ''application/x-www-form-urlencoded; charset=UTF-8''),
          (''Connection'', ''keep-alive''),
          (''Host'', ''tieba.baidu.com''),
          (''Referer'', ''https://tieba.baidu.com/''),
          (''x-requested-with'', ''XMLHttpRequest''),
          (''User-Agent'', desktop_user_agent)],
       req_body = Some (toQueryString [(''tbs'', tbs), (''kw'', tiebaName), (''ie'', ''utf-8'')]) \<rparr>"

text \<open>One run of the closure of lines 183 to 214.\<close>

definition signTieba_attempt :: "js_error + jsval \<Rightarrow> js_error + jsval" where
  "signTieba_attempt got =
     (case got of
        Inl e \<Rightarrow> Inl e
      | Inr data \<Rightarrow> if \<not> truthy data then Inl (JsError SignEmpty) else Inr data)"

definition signTieba ::
  "transport \<Rightarrow> ((string \<times> string) list \<Rightarrow> string) \<Rightarrow> string \<Rightarrow> string \<Rightarrow> string \<Rightarrow> int
     \<Rightarrow> (js_error + jsval) \<times> op_label event list" where
  "signTieba axios toQueryString bduss_arg tiebaName tbs index =
     withRetry (\<lambda>i. signTieba_attempt (axios (sign_request toQueryString bduss_arg tiebaName tbs) i))
       Label_signTieba MAX_RETRIES RETRY_DELAY RETRY_MULTIPLIER"

section \<open>Notions used in the statements\<close>

text \<open>
  The delay sequence as the specification words it: starting from the previous delay, a
  rate-limited failure yields \<open>previousDelay * M * 2\<close> and any other retryable failure
  yields \<open>previousDelay * M\<close>, with \<open>*\<close> the multiplication of JavaScript numbers. The
  list of booleans tells, failure by failure, whether it was rate-limited.
\<close>

fun backoff_spec :: "jsnum \<Rightarrow> jsnum \<Rightarrow> bool list \<Rightarrow> jsnum list" where
  "backoff_spec previousDelay m [] = []"
| "backoff_spec previousDelay m (rateLimited # rest) =
     (let d = (if rateLimited then js_mul (js_mul previousDelay m) (Fin 2)
               else js_mul previousDelay m)
      in d # backoff_spec d m rest)"

text \<open>The exact product of two finite doubles is itself a double, so that their
  JavaScript product is not rounded.\<close>

definition exact_product :: "rat \<Rightarrow> rat \<Rightarrow> bool" where
  "exact_product a b = (round_double (a * b) = Fin (a * b))"

text \<open>An outcome that is a rate-limited failure; an outcome that is a failure which is
  neither rate-limited nor a client error.\<close>

definition fails_rate_limited :: "js_error + 'a \<Rightarrow> bool" where
  "fails_rate_limited out = (case out of Inl e \<Rightarrow> isRateLimited e | Inr v \<Rightarrow> False)"

definition fails_generic :: "js_error + 'a \<Rightarrow> bool" where
  "fails_generic out =
     (case out of Inl e \<Rightarrow> \<not> isRateLimited e \<and> \<not> isClientError e | Inr v \<Rightarrow> False)"

text \<open>The events of a run under the default policy (three retries, 3000 ms, multiplier 2)
  in which all four invocations fail and the last failure is \<open>e\<close>, none of them
  rate-limited. Then concrete environments for the examples: an operation that throws
  the same error at every invocation, a transport that answers every request with the
  same body, and a stand-in for the absent \<open>toQueryString\<close>.\<close>

definition default_failure_trace :: "'l \<Rightarrow> js_error \<Rightarrow> 'l event list" where
  "default_failure_trace name e =
     [Invoke 0, WarnRetry name (Fin 6000) 1 3, Sleep (Fin 6000),
      Invoke 1, WarnRetry name (Fin 12000) 2 3, Sleep (Fin 12000),
      Invoke 2, WarnRetry name (Fin 24000) 3 3, Sleep (Fin 24000),
      Invoke 3, ConsoleError name 4 e]"

definition always_fails :: "js_error \<Rightarrow> nat \<Rightarrow> js_error + unit" where
  "always_fails e i = Inl e"

definition always_responds :: "jsval \<Rightarrow> transport" where
  "always_responds body req i = Inr body"

definition sample_toQueryString :: "(string \<times> string) list \<Rightarrow> string" where
  "sample_toQueryString kvs = concat (map (\<lambda>(k, v). k @ ''='' @ v @ ''&'') kvs)"

text \<open>The two response bodies that the specification names for \<open>login\<close>.\<close>

definition login_ok_body :: jsval where
  "login_ok_body = JObj [(''no'', JNum 0), (''error'', JStr ''success''),
                         (''data'', JObj [(''user_id'', JStr ''U1'')])]"

definition login_fail_body :: jsval where
  "login_fail_body = JObj [(''no'', JNum 1), (''error'', JStr ''fail'')]"

section \<open>Products that are not rounded\<close>

lemma round_half_even_of_int: "round_half_even (of_int n) = n"
  by (simp add: round_half_even_def Let_def)

lemma pow2_nonpos: "e \<le> 0 \<Longrightarrow> pow2 e = 1 / 2 ^ nat (- e)"
  by (cases "e = 0") (simp_all add: pow2_def)

lemma ilog2_of_int: "1 \<le> x \<Longrightarrow> ilog2 (of_int x) = bitlen x - 1"
  by (simp add: ilog2_def)

lemma round_double_pos_safe_integer:
  assumes "1 \<le> x" and "x \<le> 2 ^ 53"
  shows "round_double (of_int x) = Fin (of_int x)"
proof -
  define e where "e = bitlen x - 1"
  have xpos: "0 < x" using assms(1) by simp
  have lo: "2 ^ nat e \<le> x" and hi: "x < 2 ^ nat (bitlen x)"
    using bitlen_bounds[OF xpos] by (simp_all add: e_def)
  have e0: "0 \<le> e" using xpos by (simp add: e_def bitlen_alt_def)
  have le2: "(2::int) ^ nat e \<le> 2 ^ 53" using lo assms(2) by simp
  have "nat e \<le> 53"
  proof (rule power_le_imp_le_exp[of "2::int"])
    show "1 < (2::int)" by simp
    show "(2::int) ^ nat e \<le> 2 ^ 53" by (fact le2)
  qed
  then have e53: "e \<le> 53" by simp
  have mx: "max (ilog2 (of_int x)) (- 1022) = e"
    using e0 assms(1) by (simp add: ilog2_of_int e_def)
  have r: "of_int (round_half_even (of_int x / pow2 (e - 52))) * pow2 (e - 52) = (of_int x :: rat)"
  proof (cases "e \<le> 52")
    case True
    then have p: "pow2 (e - 52) = 1 / 2 ^ nat (52 - e)"
      using pow2_nonpos[of "e - 52"] by simp
    have "(of_int x :: rat) / pow2 (e - 52) = of_int (x * 2 ^ nat (52 - e))"
      by (simp add: p)
    then have "round_half_even (of_int x / pow2 (e - 52)) = x * 2 ^ nat (52 - e)"
      by (simp only: round_half_even_of_int)
    then show ?thesis by (simp add: p)
  next
    case False
    then have e: "e = 53" using e53 by simp
    then have "2 ^ 53 \<le> x" using lo by simp
    then have x: "x = 2 ^ 53" using assms(2) by simp
    have p: "pow2 (e - 52) = 2" by (simp add: e pow2_def)
    have "(of_int x :: rat) / 2 = of_int (2 ^ 52)" by (simp add: x)
    then have "round_half_even (of_int x / 2) = 2 ^ 52"
      by (simp only: round_half_even_of_int)
    then show ?thesis by (simp add: p x)
  qed
  have "(of_int x :: rat) \<le> 2 ^ 53"
    using assms(2) by (metis of_int_le_iff of_int_numeral of_int_power)
  also have "\<dots> < 2 ^ 1024" by simp
  finally have small: "\<not> pow2 1024 \<le> (of_int x :: rat)" by (simp add: pow2_def)
  have nz: "(of_int x :: rat) \<noteq> 0" "\<not> (of_int x :: rat) < 0" "\<bar>of_int x :: rat\<bar> = of_int x"
    using xpos by simp_all
  show ?thesis
    unfolding round_double_def Let_def nz(3) mx r
    using nz small by simp
qed

lemma round_double_neg:
  "round_double (- q) =
     (case round_double q of Fin r \<Rightarrow> Fin (- r) | PosInf \<Rightarrow> NegInf | NegInf \<Rightarrow> PosInf | NaN \<Rightarrow> NaN)"
  by (cases "q = 0"; cases "q < 0") (auto simp: round_double_def Let_def)

text \<open>Integers of magnitude at most \<open>2 ^ 53\<close> are doubles.\<close>

lemma round_double_safe_integer:
  assumes "q \<in> \<int>" and "\<bar>q\<bar> \<le> 2 ^ 53"
  shows "round_double q = Fin q"
proof -
  from assms(1) obtain x :: int where q: "q = of_int x" by (auto elim: Ints_cases)
  have bx: "\<bar>x\<bar> \<le> 2 ^ 53"
    using assms(2) unfolding q by (metis of_int_abs of_int_le_iff of_int_numeral of_int_power)
  consider "x = 0" | "1 \<le> x" | "1 \<le> - x" by linarith
  then show ?thesis
  proof cases
    case 1
    then show ?thesis by (simp add: q round_double_def)
  next
    case 2
    then show ?thesis using bx round_double_pos_safe_integer[of x] by (simp add: q)
  next
    case 3
    then have "round_double (of_int (- x)) = Fin (of_int (- x))"
      using bx round_double_pos_safe_integer[of "- x"] by simp
    then have "round_double (- (of_int (- x))) = Fin (- (of_int (- x)))"
      by (simp only: round_double_neg jsnum.case)
    then show ?thesis by (simp add: q)
  qed
qed

lemma exact_product_safe_integers:
  "a \<in> \<int> \<Longrightarrow> b \<in> \<int> \<Longrightarrow> \<bar>a * b\<bar> \<le> 2 ^ 53 \<Longrightarrow> exact_product a b"
  by (simp add: exact_product_def round_double_safe_integer)

lemma js_mul_exact: "exact_product a b \<Longrightarrow> js_mul (Fin a) (Fin b) = Fin (a * b)"
  by (simp add: exact_product_def)

lemma default_delays:
  "js_mul (Fin 3000) (Fin 2) = Fin 6000"
  "js_mul (Fin 6000) (Fin 2) = Fin 12000"
  "js_mul (Fin 12000) (Fin 2) = Fin 24000"
  "js_mul (Fin 24000) (Fin 2) = Fin 48000"
  by (simp_all add: round_double_safe_integer)

text \<open>A product beyond \<open>2 ^ 53\<close> is rounded: \<open>(2 ^ 53 - 1) * 3\<close> is odd and lies between two
  doubles.\<close>

lemma js_mul_rounds:
  "js_mul (Fin 9007199254740991) (Fin 3) = Fin 27021597764222972"
  by code_simp

section \<open>One iteration of the loop\<close>

lemma always_fails_eq: "always_fails e = (\<lambda>i. Inl e)"
  by (rule ext) (simp add: always_fails_def)

lemma loop_success:
  "requestFn r = Inr v \<Longrightarrow>
   withRetry_loop requestFn name N M r d = (Inr v, [Invoke r])"
  by (subst withRetry_loop.simps) simp

lemma loop_terminal:
  "requestFn r = Inl e \<Longrightarrow> int (Suc r) > N \<or> (\<not> isRateLimited e \<and> isClientError e) \<Longrightarrow>
   withRetry_loop requestFn name N M r d = (Inl e, [Invoke r, ConsoleError name (Suc r) e])"
  by (subst withRetry_loop.simps) (simp add: Let_def)

lemma loop_rate_limited:
  "requestFn r = Inl e \<Longrightarrow> int (Suc r) \<le> N \<Longrightarrow> isRateLimited e \<Longrightarrow>
   withRetry_loop requestFn name N M r d =
     (fst (withRetry_loop requestFn name N M (Suc r) (js_mul (js_mul d M) (Fin 2))),
      Invoke r # WarnRateLimited (js_mul (js_mul d M) (Fin 2)) (Suc r) N # Sleep (js_mul (js_mul d M) (Fin 2))
        # snd (withRetry_loop requestFn name N M (Suc r) (js_mul (js_mul d M) (Fin 2))))"
  by (subst withRetry_loop.simps) (simp add: Let_def split_beta)

lemma loop_other:
  "requestFn r = Inl e \<Longrightarrow> int (Suc r) \<le> N \<Longrightarrow> \<not> isRateLimited e \<Longrightarrow> \<not> isClientError e \<Longrightarrow>
   withRetry_loop requestFn name N M r d =
     (fst (withRetry_loop requestFn name N M (Suc r) (js_mul d M)),
      Invoke r # WarnRetry name (js_mul d M) (Suc r) N # Sleep (js_mul d M)
        # snd (withRetry_loop requestFn name N M (Suc r) (js_mul d M)))"
  by (subst withRetry_loop.simps) (simp add: Let_def split_beta)

lemma loop_starts_with_invoke:
  "\<exists>evs. snd (withRetry_loop requestFn name N M r d) = Invoke r # evs"
  by (subst withRetry_loop.simps) (auto simp: Let_def split_beta split: sum.splits)

lemma status_None_not_classified:
  "response_status e = None \<Longrightarrow> \<not> isRateLimited e \<and> \<not> isClientError e"
  by (simp add: isRateLimited_def isClientError_def)

lemma withRetry_first_success:
  "requestFn 0 = Inr v \<Longrightarrow> withRetry requestFn name N D M = (Inr v, [Invoke 0])"
  by (simp add: withRetry_def loop_success)

section \<open>Exhaustion of the retry budget\<close>

lemma loop_exhaust:
  assumes fails: "\<forall>i. \<exists>e. requestFn i = Inl e \<and> \<not> isRateLimited e \<and> \<not> isClientError e"
  shows "int r \<le> N \<Longrightarrow>
     fst (withRetry_loop requestFn name N M r d) = requestFn (nat N) \<and>
     attempts (snd (withRetry_loop requestFn name N M r d)) = Suc (nat N) - r"
proof (induction "nat N - r" arbitrary: r d)
  case 0
  then have rN: "r = nat N" by linarith
  from fails obtain e where e: "requestFn r = Inl e" by blast
  have "int (Suc r) > N" using rN 0 by linarith
  then have "withRetry_loop requestFn name N M r d = (Inl e, [Invoke r, ConsoleError name (Suc r) e])"
    using e by (simp add: loop_terminal)
  then show ?case using rN e by simp
next
  case (Suc k)
  from fails obtain e where e: "requestFn r = Inl e" "\<not> isRateLimited e" "\<not> isClientError e" by blast
  have le: "int (Suc r) \<le> N" using Suc.hyps(2) by linarith
  have k: "k = nat N - Suc r" using Suc.hyps(2) by linarith
  have step: "withRetry_loop requestFn name N M r d =
     (fst (withRetry_loop requestFn name N M (Suc r) (js_mul d M)),
      Invoke r # WarnRetry name (js_mul d M) (Suc r) N # Sleep (js_mul d M)
        # snd (withRetry_loop requestFn name N M (Suc r) (js_mul d M)))"
    using e(1) le e(2) e(3) by (rule loop_other)
  have ih: "fst (withRetry_loop requestFn name N M (Suc r) (js_mul d M)) = requestFn (nat N) \<and>
     attempts (snd (withRetry_loop requestFn name N M (Suc r) (js_mul d M))) = Suc (nat N) - Suc r"
    using k le by (rule Suc.hyps(1))
  have "Suc r \<le> nat N" using le by linarith
  then show ?case using step ih by (simp add: Suc_diff_le)
qed

text \<open>
  Claim C1. For every \<open>maxRetries = N\<close> with \<open>N \<ge> 0\<close>: if every invocation of the wrapped
  operation fails with a failure that is neither rate-limited nor a 4xx client error,
  then \<open>withRetry\<close> invokes the operation exactly \<open>N + 1\<close> times and then propagates the
  failure (the one thrown by the last invocation).
\<close>

theorem withRetry_exhausts_after_N_plus_1:
  assumes "0 \<le> N"
    and "\<forall>i. \<exists>e. requestFn i = Inl e \<and> \<not> isRateLimited e \<and> \<not> isClientError e"
  shows "fst (withRetry requestFn name N D M) = requestFn (nat N) \<and>
         (\<exists>e. fst (withRetry requestFn name N D M) = Inl e) \<and>
         int (attempts (snd (withRetry requestFn name N D M))) = N + 1"
proof -
  have "int 0 \<le> N" using assms(1) by simp
  with assms(2) have "fst (withRetry_loop requestFn name N M 0 D) = requestFn (nat N) \<and>
     attempts (snd (withRetry_loop requestFn name N M 0 D)) = Suc (nat N) - 0"
    by (rule loop_exhaust)
  moreover obtain e where "requestFn (nat N) = Inl e" using assms(2) by blast
  ultimately show ?thesis using assms(1) by (simp add: withRetry_def)
qed

theorem withRetry_exhausts_witness:
  "fst (withRetry (always_fails (AxiosError (Some 503) ''unavailable'')) ''op'' 2 (Fin 3000) (Fin 2))
     = Inl (AxiosError (Some 503) ''unavailable'') \<and>
   int (attempts (snd (withRetry (always_fails (AxiosError (Some 503) ''unavailable'')) ''op'' 2 (Fin 3000) (Fin 2)))) = 3"
  using withRetry_exhausts_after_N_plus_1
    [of 2 "always_fails (AxiosError (Some 503) ''unavailable'')" "''op''" "Fin 3000" "Fin 2"]
  by (simp add: isRateLimited_def isClientError_def always_fails_def)

section \<open>The delay sequence\<close>

lemma loop_sleeps:
  "int (r + k) \<le> N \<Longrightarrow>
   \<forall>i. r \<le> i \<and> i < r + k \<longrightarrow> fails_rate_limited (requestFn i) \<or> fails_generic (requestFn i) \<Longrightarrow>
   take k (sleeps (snd (withRetry_loop requestFn name N M r d))) =
     backoff_spec d M (map (\<lambda>i. fails_rate_limited (requestFn i)) [r..<r + k])"
proof (induction k arbitrary: r d)
  case 0
  then show ?case by simp
next
  case (Suc k)
  have cls: "fails_rate_limited (requestFn r) \<or> fails_generic (requestFn r)"
    using Suc.prems(2) by simp
  then obtain e where e: "requestFn r = Inl e"
    by (cases "requestFn r") (auto simp: fails_rate_limited_def fails_generic_def)
  have le: "int (Suc r) \<le> N" using Suc.prems(1) by simp
  have bound: "int (Suc r + k) \<le> N" using Suc.prems(1) by simp
  have rest: "\<forall>i. Suc r \<le> i \<and> i < Suc r + k \<longrightarrow>
                fails_rate_limited (requestFn i) \<or> fails_generic (requestFn i)"
    using Suc.prems(2) by simp
  have upt: "[r..<r + Suc k] = r # [Suc r..<Suc r + k]"
    by (simp add: upt_conv_Cons)
  show ?case
  proof (cases "isRateLimited e")
    case True
    have step: "withRetry_loop requestFn name N M r d =
       (fst (withRetry_loop requestFn name N M (Suc r) (js_mul (js_mul d M) (Fin 2))),
        Invoke r # WarnRateLimited (js_mul (js_mul d M) (Fin 2)) (Suc r) N # Sleep (js_mul (js_mul d M) (Fin 2))
          # snd (withRetry_loop requestFn name N M (Suc r) (js_mul (js_mul d M) (Fin 2))))"
      using e le True by (rule loop_rate_limited)
    have ih: "take k (sleeps (snd (withRetry_loop requestFn name N M (Suc r) (js_mul (js_mul d M) (Fin 2))))) =
       backoff_spec (js_mul (js_mul d M) (Fin 2)) M (map (\<lambda>i. fails_rate_limited (requestFn i)) [Suc r..<Suc r + k])"
      using bound rest by (rule Suc.IH)
    have "fails_rate_limited (requestFn r)" using e True by (simp add: fails_rate_limited_def)
    then show ?thesis using step ih upt by (simp add: Let_def)
  next
    case False
    have nc: "\<not> isClientError e"
      using cls e False by (simp add: fails_rate_limited_def fails_generic_def)
    have step: "withRetry_loop requestFn name N M r d =
       (fst (withRetry_loop requestFn name N M (Suc r) (js_mul d M)),
        Invoke r # WarnRetry name (js_mul d M) (Suc r) N # Sleep (js_mul d M)
          # snd (withRetry_loop requestFn name N M (Suc r) (js_mul d M)))"
      using e le False nc by (rule loop_other)
    have ih: "take k (sleeps (snd (withRetry_loop requestFn name N M (Suc r) (js_mul d M)))) =
       backoff_spec (js_mul d M) M (map (\<lambda>i. fails_rate_limited (requestFn i)) [Suc r..<Suc r + k])"
      using bound rest by (rule Suc.IH)
    have "\<not> fails_rate_limited (requestFn r)" using e False by (simp add: fails_rate_limited_def)
    then show ?thesis using step ih upt by (simp add: Let_def)
  qed
qed

lemma backoff_spec_all_rate_limited:
  "\<forall>i<k. exact_product (d * (m * 2) ^ i) m \<and> exact_product (d * (m * 2) ^ i * m) 2 \<Longrightarrow>
   backoff_spec (Fin d) (Fin m) (replicate k True) = map (\<lambda>i. Fin (d * (m * 2) ^ Suc i)) [0..<k]"
proof (induction k arbitrary: d)
  case 0
  then show ?case by simp
next
  case (Suc k)
  have first: "exact_product d m" "exact_product (d * m) 2"
    using Suc.prems[rule_format, of 0] by simp_all
  have head: "js_mul (js_mul (Fin d) (Fin m)) (Fin 2) = Fin (d * m * 2)"
    using first by (simp only: js_mul_exact)
  have rest: "\<forall>i<k. exact_product (d * m * 2 * (m * 2) ^ i) m \<and>
                    exact_product (d * m * 2 * (m * 2) ^ i * m) 2"
  proof (intro allI impI)
    fix i assume "i < k"
    then have "Suc i < Suc k" by simp
    then have X: "exact_product (d * (m * 2) ^ Suc i) m \<and> exact_product (d * (m * 2) ^ Suc i * m) 2"
      using Suc.prems by blast
    have eq: "d * (m * 2) ^ Suc i = d * m * 2 * (m * 2) ^ i" by simp
    show "exact_product (d * m * 2 * (m * 2) ^ i) m \<and>
          exact_product (d * m * 2 * (m * 2) ^ i * m) 2"
      using X by (simp only: eq)
  qed
  have ih: "backoff_spec (Fin (d * m * 2)) (Fin m) (replicate k True) =
            map (\<lambda>i. Fin (d * m * 2 * (m * 2) ^ Suc i)) [0..<k]"
    using rest by (rule Suc.IH)
  have "map (\<lambda>i. Fin (d * (m * 2) ^ Suc i)) [0..<Suc k] =
        Fin (d * m * 2) # map (\<lambda>i. Fin (d * m * 2 * (m * 2) ^ Suc i)) [0..<k]"
    by (simp add: upt_rec[of 0] map_Suc_upt[symmetric] algebra_simps del: upt_Suc)
  then show ?case using head ih by (simp add: Let_def)
qed

lemma backoff_spec_all_generic:
  "\<forall>i<k. exact_product (d * m ^ i) m \<Longrightarrow>
   backoff_spec (Fin d) (Fin m) (replicate k False) = map (\<lambda>i. Fin (d * m ^ Suc i)) [0..<k]"
proof (induction k arbitrary: d)
  case 0
  then show ?case by simp
next
  case (Suc k)
  have first: "exact_product d m"
    using Suc.prems[rule_format, of 0] by simp
  have head: "js_mul (Fin d) (Fin m) = Fin (d * m)"
    using first by (rule js_mul_exact)
  have rest: "\<forall>i<k. exact_product (d * m * m ^ i) m"
  proof (intro allI impI)
    fix i assume "i < k"
    then have "Suc i < Suc k" by simp
    then have X: "exact_product (d * m ^ Suc i) m" using Suc.prems by blast
    have eq: "d * m ^ Suc i = d * m * m ^ i" by simp
    show "exact_product (d * m * m ^ i) m" using X by (simp only: eq)
  qed
  have ih: "backoff_spec (Fin (d * m)) (Fin m) (replicate k False) =
            map (\<lambda>i. Fin (d * m * m ^ Suc i)) [0..<k]"
    using rest by (rule Suc.IH)
  have "map (\<lambda>i. Fin (d * m ^ Suc i)) [0..<Suc k] =
        Fin (d * m) # map (\<lambda>i. Fin (d * m * m ^ Suc i)) [0..<k]"
    by (simp add: upt_rec[of 0] map_Suc_upt[symmetric] algebra_simps del: upt_Suc)
  then show ?case using head ih by (simp add: Let_def)
qed

lemma map_const_upt: "\<forall>i<k. f i = c \<Longrightarrow> map f [0..<k] = replicate k c"
  by (induction k) (simp_all add: replicate_append_same)

text \<open>
  Claim C2. With initial delay \<open>D\<close> and multiplier \<open>M\<close>, the delay slept after each
  retryable failure is the escalated one: \<open>previousDelay * M * 2\<close> after a rate-limited
  failure and \<open>previousDelay * M\<close> after any other retryable failure, the products being
  those of JavaScript numbers. Hence, while the retry budget lasts and as long as the
  products are doubles (so that the runtime does not round them; every integer product of
  magnitude up to \<open>2 ^ 53\<close> is), \<open>k\<close> rate-limited failures in a row from the start give
  the sleeps \<open>D * (2M)\<close>, \<open>D * (2M)\<^sup>2\<close>, ... and \<open>k\<close> generic failures give \<open>D * M\<close>,
  \<open>D * M\<^sup>2\<close>, ...
\<close>

theorem withRetry_backoff_sequence:
  assumes "int k \<le> N"
    and "\<forall>i<k. fails_rate_limited (requestFn i) \<or> fails_generic (requestFn i)"
  shows "take k (sleeps (snd (withRetry requestFn name N D M))) =
           backoff_spec D M (map (\<lambda>i. fails_rate_limited (requestFn i)) [0..<k]) \<and>
         ((\<forall>i<k. fails_rate_limited (requestFn i)) \<and> D = Fin d \<and> M = Fin m \<and>
          (\<forall>i<k. exact_product (d * (m * 2) ^ i) m \<and> exact_product (d * (m * 2) ^ i * m) 2) \<longrightarrow>
            take k (sleeps (snd (withRetry requestFn name N D M))) =
              map (\<lambda>i. Fin (d * (m * 2) ^ Suc i)) [0..<k]) \<and>
         ((\<forall>i<k. fails_generic (requestFn i)) \<and> D = Fin d \<and> M = Fin m \<and>
          (\<forall>i<k. exact_product (d * m ^ i) m) \<longrightarrow>
            take k (sleeps (snd (withRetry requestFn name N D M))) =
              map (\<lambda>i. Fin (d * m ^ Suc i)) [0..<k])"
proof -
  have b: "int (0 + k) \<le> N" using assms(1) by simp
  have f: "\<forall>i. 0 \<le> i \<and> i < 0 + k \<longrightarrow> fails_rate_limited (requestFn i) \<or> fails_generic (requestFn i)"
    using assms(2) by simp
  have gen: "take k (sleeps (snd (withRetry requestFn name N D M))) =
           backoff_spec D M (map (\<lambda>i. fails_rate_limited (requestFn i)) [0..<k])"
    using loop_sleeps[OF b f, of name M D] by (simp add: withRetry_def)
  have rl: "take k (sleeps (snd (withRetry requestFn name N D M))) =
              map (\<lambda>i. Fin (d * (m * 2) ^ Suc i)) [0..<k]"
    if "\<forall>i<k. fails_rate_limited (requestFn i)" and "D = Fin d" and "M = Fin m"
      and "\<forall>i<k. exact_product (d * (m * 2) ^ i) m \<and> exact_product (d * (m * 2) ^ i * m) 2"
  proof -
    have "map (\<lambda>i. fails_rate_limited (requestFn i)) [0..<k] = replicate k True"
      using that(1) by (intro map_const_upt) simp
    then show ?thesis
      using gen that(2,3) backoff_spec_all_rate_limited[OF that(4)] by simp
  qed
  have ge: "take k (sleeps (snd (withRetry requestFn name N D M))) =
              map (\<lambda>i. Fin (d * m ^ Suc i)) [0..<k]"
    if "\<forall>i<k. fails_generic (requestFn i)" and "D = Fin d" and "M = Fin m"
      and "\<forall>i<k. exact_product (d * m ^ i) m"
  proof -
    have "\<forall>i<k. fails_rate_limited (requestFn i) = False"
      using that(1) by (auto simp: fails_generic_def fails_rate_limited_def split: sum.splits)
    then have "map (\<lambda>i. fails_rate_limited (requestFn i)) [0..<k] = replicate k False"
      by (rule map_const_upt)
    then show ?thesis
      using gen that(2,3) backoff_spec_all_generic[OF that(4)] by simp
  qed
  show ?thesis using gen rl ge by blast
qed

theorem withRetry_backoff_witness:
  "take 2 (sleeps (snd (withRetry (always_fails (AxiosError (Some 429) ''slow'')) ''op'' 3 (Fin 3000) (Fin 2))))
     = [Fin 12000, Fin 48000] \<and>
   take 2 (sleeps (snd (withRetry (always_fails (AxiosError None ''timeout'')) ''op'' 3 (Fin 3000) (Fin 2))))
     = [Fin 6000, Fin 12000] \<and>
   take 1 (sleeps (snd (withRetry (always_fails (AxiosError None ''timeout'')) ''op'' 1
                          (Fin 9007199254740991) (Fin 3))))
     = [Fin 27021597764222972]"
proof -
  have ex: "exact_product a b" if "a \<in> \<int>" "b \<in> \<int>" "\<bar>a * b\<bar> \<le> 9007199254740992" for a b
    using that exact_product_safe_integers[of a b] by simp
  have h: "\<forall>i<2. exact_product (3000 * (2 * 2) ^ i) 2 \<and> exact_product (3000 * (2 * 2) ^ i * 2) 2"
    by (simp add: less_Suc_eq numeral_2_eq_2 ex)
  have g: "\<forall>i<2. exact_product (3000 * 2 ^ i) 2"
    by (simp add: less_Suc_eq numeral_2_eq_2 ex)
  show ?thesis
    using withRetry_backoff_sequence
        [of 2 3 "always_fails (AxiosError (Some 429) ''slow'')" "''op''" "Fin 3000" "Fin 2" 3000 2]
      withRetry_backoff_sequence
        [of 2 3 "always_fails (AxiosError None ''timeout'')" "''op''" "Fin 3000" "Fin 2" 3000 2]
      withRetry_backoff_sequence
        [of 1 1 "always_fails (AxiosError None ''timeout'')" "''op''"
            "Fin 9007199254740991" "Fin 3" 0 0]
      h g
    by (simp add: fails_rate_limited_def fails_generic_def isRateLimited_def isClientError_def
          always_fails_def numeral_2_eq_2 Let_def js_mul_rounds default_delays
          del: js_mul.simps)
qed

section \<open>Client errors\<close>

text \<open>
  Claim C3. For every \<open>maxRetries\<close>: if the first invocation fails with an HTTP status in
  \<open>[400, 500)\<close> other than 429, \<open>withRetry\<close> propagates that failure after exactly one
  invocation, with no retry and no sleep.
\<close>

theorem withRetry_client_error_fails_fast:
  assumes "requestFn 0 = Inl e" and "response_status e = Some st"
    and "400 \<le> st" and "st < 500" and "st \<noteq> 429"
  shows "withRetry requestFn name N D M = (Inl e, [Invoke 0, ConsoleError name 1 e]) \<and>
         attempts (snd (withRetry requestFn name N D M)) = 1 \<and>
         sleeps (snd (withRetry requestFn name N D M)) = []"
proof -
  have "\<not> isRateLimited e \<and> isClientError e"
    using assms(2-5) by (simp add: isRateLimited_def isClientError_def)
  then have "withRetry_loop requestFn name N M 0 D = (Inl e, [Invoke 0, ConsoleError name (Suc 0) e])"
    using assms(1) by (simp add: loop_terminal)
  then show ?thesis by (simp add: withRetry_def)
qed

theorem withRetry_client_error_witness:
  "withRetry (always_fails (AxiosError (Some 404) ''not found'')) ''op'' 3 (Fin 3000) (Fin 2) =
     (Inl (AxiosError (Some 404) ''not found''),
      [Invoke 0, ConsoleError ''op'' 1 (AxiosError (Some 404) ''not found'')])"
  using withRetry_client_error_fails_fast
    [of "always_fails (AxiosError (Some 404) ''not found'')" "AxiosError (Some 404) ''not found''"
        404 "''op''" 3 "Fin 3000" "Fin 2"]
  by (simp add: always_fails_def)

section \<open>What the caller receives on failure\<close>

lemma loop_failure_is_last_failure:
  "fst (withRetry_loop requestFn name N M r d) = Inl e \<Longrightarrow>
   \<exists>k. r \<le> k \<and> requestFn k = Inl e \<and>
       attempts (snd (withRetry_loop requestFn name N M r d)) = Suc k - r \<and>
       snd (withRetry_loop requestFn name N M r d) \<noteq> [] \<and>
       last (snd (withRetry_loop requestFn name N M r d)) = ConsoleError name (Suc k) e"
proof (induction "nat (N + 1 - int r)" arbitrary: r d)
  case 0
  then have gt: "int (Suc r) > N" by linarith
  show ?case
  proof (cases "requestFn r")
    case (Inr v)
    then show ?thesis using 0(2) by (simp add: loop_success)
  next
    case (Inl err)
    then have eq: "withRetry_loop requestFn name N M r d = (Inl err, [Invoke r, ConsoleError name (Suc r) err])"
      using gt by (simp add: loop_terminal)
    then have "err = e" using 0(2) by simp
    then show ?thesis using eq Inl by (intro exI[of _ r]) simp
  qed
next
  case (Suc n)
  show ?case
  proof (cases "requestFn r")
    case (Inr v)
    then show ?thesis using Suc.prems by (simp add: loop_success)
  next
    case (Inl err)
    show ?thesis
    proof (cases "int (Suc r) > N \<or> (\<not> isRateLimited err \<and> isClientError err)")
      case True
      then have eq: "withRetry_loop requestFn name N M r d = (Inl err, [Invoke r, ConsoleError name (Suc r) err])"
        using Inl by (simp add: loop_terminal)
      then have "err = e" using Suc.prems by simp
      then show ?thesis using eq Inl by (intro exI[of _ r]) simp
    next
      case False
      then have le: "int (Suc r) \<le> N" by simp
      have n: "n = nat (N + 1 - int (Suc r))" using Suc.hyps(2) by linarith
      define d' where "d' = (if isRateLimited err then js_mul (js_mul d M) (Fin 2) else js_mul d M)"
      have step: "fst (withRetry_loop requestFn name N M r d) = fst (withRetry_loop requestFn name N M (Suc r) d') \<and>
            (\<exists>w. snd (withRetry_loop requestFn name N M r d) =
                   Invoke r # w # Sleep d' # snd (withRetry_loop requestFn name N M (Suc r) d') \<and>
                   attempts [w :: 'b event] = 0)"
      proof (cases "isRateLimited err")
        case True
        then show ?thesis using loop_rate_limited[where requestFn=requestFn and r=r and name=name and M=M and d=d, OF Inl le True] by (simp add: d'_def)
      next
        case rl: False
        then have "\<not> isClientError err" using False by simp
        then show ?thesis using loop_other[where requestFn=requestFn and r=r and name=name and M=M and d=d, OF Inl le rl] rl by (simp add: d'_def)
      qed
      then obtain w :: "'b event" where w: "snd (withRetry_loop requestFn name N M r d) =
                   Invoke r # w # Sleep d' # snd (withRetry_loop requestFn name N M (Suc r) d')"
           "attempts [w] = 0" by blast
      have "fst (withRetry_loop requestFn name N M (Suc r) d') = Inl e" using step Suc.prems by simp
      with n obtain k where k: "Suc r \<le> k" "requestFn k = Inl e"
         "attempts (snd (withRetry_loop requestFn name N M (Suc r) d')) = Suc k - Suc r"
         "snd (withRetry_loop requestFn name N M (Suc r) d') \<noteq> []"
         "last (snd (withRetry_loop requestFn name N M (Suc r) d')) = ConsoleError name (Suc k) e"
        using Suc.hyps(1)[of "Suc r" d'] by blast
      have aw: "attempts (w # evs) = attempts evs" for evs
        using w(2) by (cases w) simp_all
      show ?thesis using k w(1) aw by (intro exI[of _ k]) (simp add: Suc_diff_le)
    qed
  qed
qed

text \<open>
  Claim C4 says that the failure value surfaced to the caller carries the operation label
  and the number of attempts. Line 56 rethrows the caught error itself; the label and the
  count only go to \<open>console.error\<close> (line 55). So the same failure value comes out of two
  runs that differ in both the label and the number of attempts: the value carries
  neither.
\<close>

theorem failure_value_omits_label_and_attempts:
  "fst (withRetry (always_fails (AxiosError (Some 500) ''boom'')) Label_login 0 (Fin 3000) (Fin 2))
     = Inl (AxiosError (Some 500) ''boom'') \<and>
   fst (withRetry (always_fails (AxiosError (Some 500) ''boom'')) Label_getTbs 1 (Fin 3000) (Fin 2))
     = Inl (AxiosError (Some 500) ''boom'') \<and>
   attempts (snd (withRetry (always_fails (AxiosError (Some 500) ''boom'')) Label_login 0 (Fin 3000) (Fin 2))) = 1 \<and>
   attempts (snd (withRetry (always_fails (AxiosError (Some 500) ''boom'')) Label_getTbs 1 (Fin 3000) (Fin 2))) = 2"
proof -
  have f: "\<forall>i. \<exists>e. always_fails (AxiosError (Some 500) ''boom'') i = Inl e \<and>
                 \<not> isRateLimited e \<and> \<not> isClientError e"
    by (simp add: always_fails_def isRateLimited_def isClientError_def)
  have "int 0 \<le> 0" and "int 0 \<le> 1" by simp_all
  then show ?thesis
    using loop_exhaust[OF f, of 0 0 Label_login "Fin 2" "Fin 3000"]
      loop_exhaust[OF f, of 0 1 Label_getTbs "Fin 2" "Fin 3000"]
    by (simp add: withRetry_def always_fails_eq numeral_2_eq_2)
qed

text \<open>
  Claim C4, amended. Whenever \<open>withRetry\<close> propagates a failure, the value surfaced to the
  caller is the error thrown by the last invocation of the operation, unchanged; the
  operation label and the number of attempts made are written to the error console as
  the last event before the failure propagates.
\<close>

theorem withRetry_propagates_original_failure:
  assumes "fst (withRetry requestFn name N D M) = Inl e"
  shows "\<exists>k. requestFn k = Inl e \<and>
             attempts (snd (withRetry requestFn name N D M)) = Suc k \<and>
             last (snd (withRetry requestFn name N D M)) = ConsoleError name (Suc k) e"
  using loop_failure_is_last_failure[of requestFn name N M 0 D e] assms
  by (auto simp: withRetry_def)

theorem withRetry_propagates_witness:
  "\<exists>k. always_fails (AxiosError (Some 500) ''boom'') k = Inl (AxiosError (Some 500) ''boom'') \<and>
       attempts (snd (withRetry (always_fails (AxiosError (Some 500) ''boom'')) Label_login 1 (Fin 3000) (Fin 2))) = Suc k \<and>
       last (snd (withRetry (always_fails (AxiosError (Some 500) ''boom'')) Label_login 1 (Fin 3000) (Fin 2)))
         = ConsoleError Label_login (Suc k) (AxiosError (Some 500) ''boom'')"
proof -
  have "fst (withRetry (always_fails (AxiosError (Some 500) ''boom'')) Label_login 1 (Fin 3000) (Fin 2))
          = Inl (AxiosError (Some 500) ''boom'')"
  proof -
    have f: "\<forall>i. \<exists>e. always_fails (AxiosError (Some 500) ''boom'') i = Inl e \<and>
                   \<not> isRateLimited e \<and> \<not> isClientError e"
      by (simp add: always_fails_def isRateLimited_def isClientError_def)
    have "int 0 \<le> 1" by simp
    then show ?thesis
      using loop_exhaust[OF f, of 0 1 Label_login "Fin 2" "Fin 3000"]
      by (simp add: withRetry_def always_fails_eq)
  qed
  then show ?thesis by (rule withRetry_propagates_original_failure)
qed

section \<open>Failures without a response status\<close>

lemma rd_Inl_cases:
  assumes "rd v k cont = Inl e"
  obtains "e = TypeError k" | x where "cont x = Inl e"
  using assms by (cases v) (auto simp: rd_def split: sum.splits)

lemma login_attempt_no_status:
  assumes "login_attempt b g (Inr body) = Inl e"
  shows "response_status e = None"
proof (cases "truthy body")
  case False
  then show ?thesis using assms by (auto simp: login_attempt_def)
next
  case True
  then have "rd body ''no'' (\<lambda>no.
            if no \<noteq> JNum 0 then Inl (JsError LoginInvalid)
            else rd body ''error'' (\<lambda>err.
              if err \<noteq> JStr ''success'' then Inl (JsError LoginInvalid)
              else rd body ''data'' (\<lambda>d. rd d ''user_id'' (\<lambda>uid.
                Inr \<lparr> status = 200, bduss = b, userId = uid, isValid = True,
                      deviceId = g \<rparr>)))) = Inl e"
    using assms by (simp add: login_attempt_def)
  then show ?thesis
    by (elim rd_Inl_cases) (auto split: if_splits elim!: rd_Inl_cases)
qed

lemma getTiebaList_attempt_no_status:
  assumes "getTiebaList_attempt (Inr body) = Inl e"
  shows "response_status e = None"
proof (cases "truthy body")
  case False
  then show ?thesis using assms by (auto simp: getTiebaList_attempt_def list_error_def Let_def)
next
  case True
  then have "rd body ''error'' (\<lambda>err.
            if err \<noteq> JStr ''success'' then Inl (list_error body)
            else rd body ''data'' (\<lambda>d. rd d ''like_forum'' (\<lambda>lf.
              Inr (if truthy lf then lf else JArr [])))) = Inl e"
    using assms by (simp add: getTiebaList_attempt_def)
  then show ?thesis
    by (elim rd_Inl_cases) (auto simp: list_error_def Let_def split: if_splits elim!: rd_Inl_cases)
qed

lemma getTbs_attempt_no_status:
  assumes "getTbs_attempt (Inr body) = Inl e"
  shows "response_status e = None"
proof (cases "truthy body")
  case False
  then show ?thesis using assms by (auto simp: getTbs_attempt_def)
next
  case True
  then have "rd body ''tbs'' (\<lambda>t.
            if \<not> truthy t then Inl (JsError TbsFailed)
            else rd body ''tbs'' Inr) = Inl e"
    using assms by (simp add: getTbs_attempt_def)
  then show ?thesis
    by (elim rd_Inl_cases) (auto split: if_splits elim!: rd_Inl_cases)
qed

lemma signTieba_attempt_no_status:
  "signTieba_attempt (Inr body) = Inl e \<Longrightarrow> response_status e = None"
  unfolding signTieba_attempt_def
  by (auto split: if_splits)

section \<open>A run under the default policy\<close>

lemma default_policy_generic_failure:
  assumes "\<forall>i. requestFn i = Inl e" and "\<not> isRateLimited e" and "\<not> isClientError e"
  shows "withRetry requestFn name MAX_RETRIES RETRY_DELAY RETRY_MULTIPLIER =
     (Inl e, [Invoke 0, WarnRetry name (Fin 6000) 1 3, Sleep (Fin 6000),
              Invoke 1, WarnRetry name (Fin 12000) 2 3, Sleep (Fin 12000),
              Invoke 2, WarnRetry name (Fin 24000) 3 3, Sleep (Fin 24000),
              Invoke 3, ConsoleError name 4 e])"
proof -
  have f: "requestFn i = Inl e" for i using assms(1) by simp
  have l3: "withRetry_loop requestFn name 3 (Fin 2) 3 (Fin 24000) =
      (Inl e, [Invoke 3, ConsoleError name 4 e])"
    using loop_terminal[where requestFn=requestFn and r=3 and e=e and N=3 and name=name
            and M="Fin 2" and d="Fin 24000"] f
    by simp
  have l2: "withRetry_loop requestFn name 3 (Fin 2) 2 (Fin 12000) =
      (Inl e, [Invoke 2, WarnRetry name (Fin 24000) 3 3, Sleep (Fin 24000),
               Invoke 3, ConsoleError name 4 e])"
    using loop_other[where requestFn=requestFn and r=2 and e=e and N=3 and name=name
            and M="Fin 2" and d="Fin 12000"] f assms(2,3) l3
    by (simp add: eval_nat_numeral default_delays del: js_mul.simps)
  have l1: "withRetry_loop requestFn name 3 (Fin 2) 1 (Fin 6000) =
      (Inl e, [Invoke 1, WarnRetry name (Fin 12000) 2 3, Sleep (Fin 12000),
               Invoke 2, WarnRetry name (Fin 24000) 3 3, Sleep (Fin 24000),
               Invoke 3, ConsoleError name 4 e])"
    using loop_other[where requestFn=requestFn and r=1 and e=e and N=3 and name=name
            and M="Fin 2" and d="Fin 6000"] f assms(2,3) l2
    by (simp add: eval_nat_numeral default_delays del: js_mul.simps)
  have l0: "withRetry_loop requestFn name 3 (Fin 2) 0 (Fin 3000) =
      (Inl e, [Invoke 0, WarnRetry name (Fin 6000) 1 3, Sleep (Fin 6000),
               Invoke 1, WarnRetry name (Fin 12000) 2 3, Sleep (Fin 12000),
               Invoke 2, WarnRetry name (Fin 24000) 3 3, Sleep (Fin 24000),
               Invoke 3, ConsoleError name 4 e])"
    using loop_other[where requestFn=requestFn and r=0 and e=e and N=3 and name=name
            and M="Fin 2" and d="Fin 3000"] f assms(2,3) l1
    by (simp add: default_delays del: js_mul.simps)
  show ?thesis
    using l0 by (simp add: withRetry_def MAX_RETRIES_def RETRY_DELAY_def RETRY_MULTIPLIER_def)
qed

lemma default_policy_statusless_failure:
  assumes "\<forall>i. requestFn i = Inl e" and "response_status e = None"
  shows "withRetry requestFn name MAX_RETRIES RETRY_DELAY RETRY_MULTIPLIER =
     (Inl e, [Invoke 0, WarnRetry name (Fin 6000) 1 3, Sleep (Fin 6000),
              Invoke 1, WarnRetry name (Fin 12000) 2 3, Sleep (Fin 12000),
              Invoke 2, WarnRetry name (Fin 24000) 3 3, Sleep (Fin 24000),
              Invoke 3, ConsoleError name 4 e])"
  using assms(1) status_None_not_classified[OF assms(2)]
  by (simp add: default_policy_generic_failure)

lemma loop_sleeps_all_generic:
  assumes fails: "\<forall>i. \<exists>e. requestFn i = Inl e \<and> \<not> isRateLimited e \<and> \<not> isClientError e"
  shows "int r \<le> N \<Longrightarrow>
     sleeps (snd (withRetry_loop requestFn name N M r d)) =
       backoff_spec d M (replicate (nat N - r) False)"
proof (induction "nat N - r" arbitrary: r d)
  case 0
  then have rN: "r = nat N" by linarith
  from fails obtain e where e: "requestFn r = Inl e" by blast
  have "int (Suc r) > N" using rN 0 by linarith
  then have "withRetry_loop requestFn name N M r d =
               (Inl e, [Invoke r, ConsoleError name (Suc r) e])"
    using e by (simp add: loop_terminal)
  then show ?case using rN by simp
next
  case (Suc k)
  from fails obtain e where e: "requestFn r = Inl e" "\<not> isRateLimited e" "\<not> isClientError e"
    by blast
  have le: "int (Suc r) \<le> N" using Suc.hyps(2) by linarith
  have k: "k = nat N - Suc r" using Suc.hyps(2) by linarith
  have step: "withRetry_loop requestFn name N M r d =
     (fst (withRetry_loop requestFn name N M (Suc r) (js_mul d M)),
      Invoke r # WarnRetry name (js_mul d M) (Suc r) N # Sleep (js_mul d M)
        # snd (withRetry_loop requestFn name N M (Suc r) (js_mul d M)))"
    using e(1) le e(2) e(3) by (rule loop_other)
  have ih: "sleeps (snd (withRetry_loop requestFn name N M (Suc r) (js_mul d M))) =
       backoff_spec (js_mul d M) M (replicate (nat N - Suc r) False)"
    using k le by (rule Suc.hyps(1))
  have "nat N - r = Suc (nat N - Suc r)" using le by linarith
  then show ?case using step ih by (simp add: Let_def)
qed

text \<open>
  Claim C5. A failure with no HTTP response status attached (a network error, a timeout,
  or an error raised by an endpoint function's own check of a 2xx payload) is classified
  by \<open>withRetry\<close> as neither rate-limited nor a client error. With at least one retry
  allowed it does not fail fast: \<open>withRetry\<close> sleeps the delay escalated by the plain
  multiplier and invokes the operation again; and when every invocation fails that way,
  \<open>withRetry\<close> uses the whole budget of \<open>maxRetries + 1\<close> invocations, escalating by the
  plain multiplier each time. The errors that the four endpoint attempts raise on a
  received payload all lack a response status, and so \<open>getTbs\<close>, for one, runs through
  the same four attempts and the same sleeps for a network error as for an empty token
  in a 2xx payload.
\<close>

theorem statusless_failure_is_retried:
  assumes "requestFn 0 = Inl e" and "response_status e = None" and "1 \<le> N"
  shows "\<not> isRateLimited e \<and> \<not> isClientError e \<and>
         (\<exists>res evs. withRetry requestFn name N D M =
            (res, Invoke 0 # WarnRetry name (js_mul D M) 1 N # Sleep (js_mul D M) # Invoke 1 # evs)) \<and>
         ((\<forall>i. \<exists>e'. requestFn i = Inl e' \<and> response_status e' = None) \<longrightarrow>
            fst (withRetry requestFn name N D M) = requestFn (nat N) \<and>
            int (attempts (snd (withRetry requestFn name N D M))) = N + 1 \<and>
            sleeps (snd (withRetry requestFn name N D M)) =
              backoff_spec D M (replicate (nat N) False)) \<and>
         (\<forall>b g body e'. login_attempt b g (Inr body) = Inl e' \<longrightarrow> response_status e' = None) \<and>
         (\<forall>body e'. getTiebaList_attempt (Inr body) = Inl e' \<longrightarrow> response_status e' = None) \<and>
         (\<forall>body e'. getTbs_attempt (Inr body) = Inl e' \<longrightarrow> response_status e' = None) \<and>
         (\<forall>body e'. signTieba_attempt (Inr body) = Inl e' \<longrightarrow> response_status e' = None) \<and>
         (\<forall>axios b msg.
            (\<forall>i. axios (tbs_request b) i = Inl (AxiosError None msg)) \<longrightarrow>
            getTbs axios b =
              (Inl (AxiosError None msg), default_failure_trace Label_getTbs (AxiosError None msg))) \<and>
         (\<forall>axios b.
            (\<forall>i. axios (tbs_request b) i = Inr (JObj [(''tbs'', JStr [])])) \<longrightarrow>
            getTbs axios b =
              (Inl (JsError TbsFailed), default_failure_trace Label_getTbs (JsError TbsFailed)))"
proof -
  have c: "\<not> isRateLimited e" "\<not> isClientError e"
    using assms(2) by (simp_all add: status_None_not_classified)
  have le: "int (Suc 0) \<le> N" using assms(3) by simp
  have step: "withRetry_loop requestFn name N M 0 D =
           (fst (withRetry_loop requestFn name N M (Suc 0) (js_mul D M)),
            Invoke 0 # WarnRetry name (js_mul D M) (Suc 0) N # Sleep (js_mul D M)
              # snd (withRetry_loop requestFn name N M (Suc 0) (js_mul D M)))"
    using assms(1) le c by (rule loop_other)
  obtain evs where evs: "snd (withRetry_loop requestFn name N M (Suc 0) (js_mul D M)) = Invoke (Suc 0) # evs"
    using loop_starts_with_invoke[of requestFn name N M "Suc 0" "js_mul D M"] by blast
  have first: "\<exists>res evs. withRetry requestFn name N D M =
            (res, Invoke 0 # WarnRetry name (js_mul D M) 1 N # Sleep (js_mul D M) # Invoke 1 # evs)"
    using step evs by (simp add: withRetry_def)
  have whole: "fst (withRetry requestFn name N D M) = requestFn (nat N) \<and>
            int (attempts (snd (withRetry requestFn name N D M))) = N + 1 \<and>
            sleeps (snd (withRetry requestFn name N D M)) =
              backoff_spec D M (replicate (nat N) False)"
    if "\<forall>i. \<exists>e'. requestFn i = Inl e' \<and> response_status e' = None"
  proof -
    have g: "\<forall>i. \<exists>e. requestFn i = Inl e \<and> \<not> isRateLimited e \<and> \<not> isClientError e"
      using that status_None_not_classified by blast
    have z: "int 0 \<le> N" using assms(3) by simp
    show ?thesis
      using loop_exhaust[OF g z, of name M D] loop_sleeps_all_generic[OF g z, of name M D] assms(3)
      by (simp add: withRetry_def)
  qed
  have net: "getTbs axios b =
              (Inl (AxiosError None msg), default_failure_trace Label_getTbs (AxiosError None msg))"
    if "\<forall>i. axios (tbs_request b) i = Inl (AxiosError None msg)"
    for axios :: transport and b msg
  proof -
    have "\<forall>i. getTbs_attempt (axios (tbs_request b) i) = Inl (AxiosError None msg)"
      using that by (simp add: getTbs_attempt_def)
    then show ?thesis
      by (simp add: getTbs_def default_policy_statusless_failure default_failure_trace_def)
  qed
  have payload: "getTbs axios b =
              (Inl (JsError TbsFailed), default_failure_trace Label_getTbs (JsError TbsFailed))"
    if "\<forall>i. axios (tbs_request b) i = Inr (JObj [(''tbs'', JStr [])])"
    for axios :: transport and b
  proof -
    have "\<forall>i. getTbs_attempt (axios (tbs_request b) i) = Inl (JsError TbsFailed)"
      using that by (simp add: getTbs_attempt_def rd_def)
    then show ?thesis
      by (simp add: getTbs_def default_policy_statusless_failure default_failure_trace_def)
  qed
  show ?thesis
    using c first whole net payload
      login_attempt_no_status getTiebaList_attempt_no_status getTbs_attempt_no_status
      signTieba_attempt_no_status
    by blast
qed

theorem statusless_failure_witness:
  "(\<exists>res evs. withRetry (always_fails (JsError TbsFailed)) Label_getTbs 3 (Fin 3000) (Fin 2) =
      (res, Invoke 0 # WarnRetry Label_getTbs (Fin 6000) 1 3 # Sleep (Fin 6000) # Invoke 1 # evs)) \<and>
   int (attempts (snd (withRetry (always_fails (JsError TbsFailed)) Label_getTbs 3 (Fin 3000) (Fin 2)))) = 4 \<and>
   sleeps (snd (withRetry (always_fails (JsError TbsFailed)) Label_getTbs 3 (Fin 3000) (Fin 2)))
     = [Fin 6000, Fin 12000, Fin 24000]"
  using statusless_failure_is_retried
    [of "always_fails (JsError TbsFailed)" "JsError TbsFailed" 3 Label_getTbs "Fin 3000" "Fin 2"]
  by (simp add: always_fails_def eval_nat_numeral Let_def default_delays del: js_mul.simps)

section \<open>Properties of login\<close>

lemma login_attempt_ok_body:
  "login_attempt b g (Inr login_ok_body) =
     Inr \<lparr> status = 200, bduss = b, userId = JStr ''U1'', isValid = True, deviceId = g \<rparr>"
  by (simp add: login_attempt_def login_ok_body_def rd_def)

lemma login_attempt_fail_body:
  "login_attempt b g (Inr login_fail_body) = Inl (JsError LoginInvalid)"
  by (simp add: login_attempt_def login_fail_body_def rd_def)

text \<open>
  Claim C6. For every credential: when the response body is
  \<open>{no: 0, error: "success", data: {user_id: "U1"}}\<close>, \<open>login\<close> returns a \<open>UserInfo\<close> with
  \<open>userId\<close> "U1", \<open>isValid\<close> true and a non-empty \<open>deviceId\<close> (the identifier that the
  device helper produced); when every response body is \<open>{no: 1, error: "fail"}\<close>, it fails
  with the invalid-or-expired-credential error after the policy's \<open>MAX_RETRIES + 1\<close>
  attempts and no more.
\<close>

theorem login_contract:
  "(axios (login_request b) 0 = Inr login_ok_body \<and> device_id_ok g \<longrightarrow>
      (\<exists>u. login axios g b = (Inr u, [Invoke 0]) \<and>
           userId u = JStr ''U1'' \<and> isValid u \<and> deviceId u \<noteq> [] \<and> bduss u = b)) \<and>
   ((\<forall>i. axios (login_request b) i = Inr login_fail_body) \<longrightarrow>
      fst (login axios g b) = Inl (JsError LoginInvalid) \<and>
      int (attempts (snd (login axios g b))) = MAX_RETRIES + 1)"
proof (intro conjI impI)
  assume a: "axios (login_request b) 0 = Inr login_ok_body \<and> device_id_ok g"
  then have "login axios g b =
      (Inr \<lparr> status = 200, bduss = b, userId = JStr ''U1'', isValid = True, deviceId = g \<rparr>, [Invoke 0])"
    by (simp add: login_def withRetry_first_success login_attempt_ok_body)
  then show "\<exists>u. login axios g b = (Inr u, [Invoke 0]) \<and>
           userId u = JStr ''U1'' \<and> isValid u \<and> deviceId u \<noteq> [] \<and> bduss u = b"
    using a by (simp add: device_id_ok_def)
next
  assume a: "\<forall>i. axios (login_request b) i = Inr login_fail_body"
  have "login axios g b = (Inl (JsError LoginInvalid),
             [Invoke 0, WarnRetry Label_login (Fin 6000) 1 3, Sleep (Fin 6000),
              Invoke 1, WarnRetry Label_login (Fin 12000) 2 3, Sleep (Fin 12000),
              Invoke 2, WarnRetry Label_login (Fin 24000) 3 3, Sleep (Fin 24000),
              Invoke 3, ConsoleError Label_login 4 (JsError LoginInvalid)])"
    unfolding login_def
    by (rule default_policy_statusless_failure) (simp_all add: a login_attempt_fail_body)
  then show "fst (login axios g b) = Inl (JsError LoginInvalid)"
    and "int (attempts (snd (login axios g b))) = MAX_RETRIES + 1"
    by (simp_all add: MAX_RETRIES_def)
qed

theorem login_contract_witness:
  "(\<exists>u. login (always_responds login_ok_body) ''dev-1'' ''secret'' = (Inr u, [Invoke 0]) \<and>
        userId u = JStr ''U1'' \<and> isValid u \<and> deviceId u \<noteq> [] \<and> bduss u = ''secret'') \<and>
   fst (login (always_responds login_fail_body) ''dev-1'' ''secret'') = Inl (JsError LoginInvalid) \<and>
   int (attempts (snd (login (always_responds login_fail_body) ''dev-1'' ''secret''))) = 4"
  using login_contract[of "always_responds login_ok_body" "''secret''" "''dev-1''"]
    login_contract[of "always_responds login_fail_body" "''secret''" "''dev-1''"]
  by (simp add: always_responds_def device_id_ok_def MAX_RETRIES_def)

section \<open>Properties of getTiebaList\<close>

lemma success_marker_truthy:
  "get_prop body ''error'' = Inr (JStr ''success'') \<Longrightarrow> truthy body"
  by (cases body) simp_all

text \<open>
  Claim C7 says that every response with the success marker and no \<open>data.like_forum\<close>
  field yields an empty sequence. A body with the success marker and no \<open>data\<close> field at
  all has no \<open>data.like_forum\<close> either, and there line 141 reads \<open>like_forum\<close> of
  \<open>undefined\<close>: every attempt throws, and the call fails.
\<close>

theorem getTiebaList_absent_data_not_empty:
  "fst (getTiebaList (always_responds (JObj [(''error'', JStr ''success'')])) ''secret'')
     = Inl (TypeError ''like_forum'')"
proof -
  have "getTiebaList_attempt (Inr (JObj [(''error'', JStr ''success'')])) = Inl (TypeError ''like_forum'')"
    by (simp add: getTiebaList_attempt_def rd_def)
  then have "\<forall>i. getTiebaList_attempt (always_responds (JObj [(''error'', JStr ''success'')])
                     (list_request ''secret'') i) = Inl (TypeError ''like_forum'')"
    by (simp add: always_responds_def)
  then show ?thesis
    by (simp add: getTiebaList_def default_policy_statusless_failure)
qed

text \<open>
  Claim C7, amended. For every response whose body carries the success marker and has a
  \<open>data\<close> field that is neither \<open>undefined\<close> nor \<open>null\<close> but holds no \<open>like_forum\<close> field,
  \<open>getTiebaList\<close> returns the empty sequence rather than failing.
\<close>

theorem getTiebaList_defaults_to_empty:
  assumes "axios (list_request b) 0 = Inr body"
    and "get_prop body ''error'' = Inr (JStr ''success'')"
    and "get_prop body ''data'' = Inr d"
    and "d \<noteq> JUndefined" and "d \<noteq> JNull"
    and "get_prop d ''like_forum'' = Inr JUndefined"
  shows "getTiebaList axios b = (Inr (JArr []), [Invoke 0])"
proof -
  have "truthy body" using assms(2) by (rule success_marker_truthy)
  then have "getTiebaList_attempt (Inr body) = Inr (JArr [])"
    using assms(2,3,6) by (simp add: getTiebaList_attempt_def rd_def)
  then show ?thesis
    using assms(1) by (simp add: getTiebaList_def withRetry_first_success)
qed

theorem getTiebaList_defaults_witness:
  "getTiebaList (always_responds (JObj [(''error'', JStr ''success''), (''data'', JObj [])])) ''secret''
     = (Inr (JArr []), [Invoke 0])"
  using getTiebaList_defaults_to_empty
    [of "always_responds (JObj [(''error'', JStr ''success''), (''data'', JObj [])])" "''secret''"
        "JObj [(''error'', JStr ''success''), (''data'', JObj [])]" "JObj []"]
  by (simp add: always_responds_def)

text \<open>
  Claim C10. If a response carries the success marker but its \<open>data\<close> field is absent,
  the attempt does not return an empty sequence: the read of \<open>like_forum\<close> throws a
  \<open>TypeError\<close>, which the retry loop classifies as neither rate-limited nor a client
  error and therefore retries; with the same response at every attempt the call sleeps
  6000, 12000 and 24000 ms and fails with that \<open>TypeError\<close> after four attempts.
\<close>

theorem getTiebaList_absent_data_raises_and_retries:
  assumes "get_prop body ''error'' = Inr (JStr ''success'')"
    and "get_prop body ''data'' = Inr JUndefined"
  shows "getTiebaList_attempt (Inr body) = Inl (TypeError ''like_forum'') \<and>
         \<not> isRateLimited (TypeError ''like_forum'') \<and>
         \<not> isClientError (TypeError ''like_forum'') \<and>
         ((\<forall>i. axios (list_request b) i = Inr body) \<longrightarrow>
            getTiebaList axios b =
              (Inl (TypeError ''like_forum''),
               [Invoke 0, WarnRetry Label_getTiebaList (Fin 6000) 1 3, Sleep (Fin 6000),
                Invoke 1, WarnRetry Label_getTiebaList (Fin 12000) 2 3, Sleep (Fin 12000),
                Invoke 2, WarnRetry Label_getTiebaList (Fin 24000) 3 3, Sleep (Fin 24000),
                Invoke 3, ConsoleError Label_getTiebaList 4 (TypeError ''like_forum'')]))"
proof -
  have "truthy body" using assms(1) by (rule success_marker_truthy)
  then have att: "getTiebaList_attempt (Inr body) = Inl (TypeError ''like_forum'')"
    using assms by (simp add: getTiebaList_attempt_def rd_def)
  have cls: "\<not> isRateLimited (TypeError ''like_forum'') \<and> \<not> isClientError (TypeError ''like_forum'')"
    by (simp add: status_None_not_classified)
  have run: "getTiebaList axios b =
              (Inl (TypeError ''like_forum''),
               [Invoke 0, WarnRetry Label_getTiebaList (Fin 6000) 1 3, Sleep (Fin 6000),
                Invoke 1, WarnRetry Label_getTiebaList (Fin 12000) 2 3, Sleep (Fin 12000),
                Invoke 2, WarnRetry Label_getTiebaList (Fin 24000) 3 3, Sleep (Fin 24000),
                Invoke 3, ConsoleError Label_getTiebaList 4 (TypeError ''like_forum'')])"
    if "\<forall>i. axios (list_request b) i = Inr body"
    unfolding getTiebaList_def
    by (rule default_policy_statusless_failure) (simp_all add: that att)
  show ?thesis using att cls run by blast
qed

theorem getTiebaList_absent_data_witness:
  "getTiebaList (always_responds (JObj [(''error'', JStr ''success''), (''error_msg'', JStr ''ok'')])) ''secret'' =
     (Inl (TypeError ''like_forum''),
      [Invoke 0, WarnRetry Label_getTiebaList (Fin 6000) 1 3, Sleep (Fin 6000),
       Invoke 1, WarnRetry Label_getTiebaList (Fin 12000) 2 3, Sleep (Fin 12000),
       Invoke 2, WarnRetry Label_getTiebaList (Fin 24000) 3 3, Sleep (Fin 24000),
       Invoke 3, ConsoleError Label_getTiebaList 4 (TypeError ''like_forum'')])"
  using getTiebaList_absent_data_raises_and_retries
    [of "JObj [(''error'', JStr ''success''), (''error_msg'', JStr ''ok'')]"
        "always_responds (JObj [(''error'', JStr ''success''), (''error_msg'', JStr ''ok'')])" "''secret''"]
  by (simp add: always_responds_def)

section \<open>Properties of getTbs\<close>

lemma getTbs_attempt_eq:
  "getTbs_attempt (Inr body) =
     (if truthy body \<and> truthy (opt_prop body ''tbs'') then Inr (opt_prop body ''tbs'')
      else Inl (JsError TbsFailed))"
  by (cases body) (simp_all add: getTbs_attempt_def rd_def opt_prop_def)

lemma getTbs_constant_body:
  assumes "\<forall>i. axios (tbs_request b) i = Inr body"
  shows "getTbs axios b =
     (if truthy body \<and> truthy (opt_prop body ''tbs'')
      then (Inr (opt_prop body ''tbs''), [Invoke 0])
      else (Inl (JsError TbsFailed),
            [Invoke 0, WarnRetry Label_getTbs (Fin 6000) 1 3, Sleep (Fin 6000),
             Invoke 1, WarnRetry Label_getTbs (Fin 12000) 2 3, Sleep (Fin 12000),
             Invoke 2, WarnRetry Label_getTbs (Fin 24000) 3 3, Sleep (Fin 24000),
             Invoke 3, ConsoleError Label_getTbs 4 (JsError TbsFailed)]))"
proof (cases "truthy body \<and> truthy (opt_prop body ''tbs'')")
  case True
  then have "getTbs_attempt (axios (tbs_request b) 0) = Inr (opt_prop body ''tbs'')"
    using assms by (simp add: getTbs_attempt_eq)
  then show ?thesis using True by (simp add: getTbs_def withRetry_first_success)
next
  case False
  then have "\<forall>i. getTbs_attempt (axios (tbs_request b) i) = Inl (JsError TbsFailed)"
    using assms by (auto simp add: getTbs_attempt_eq)
  then show ?thesis using False by (simp add: getTbs_def default_policy_statusless_failure)
qed

text \<open>
  Claim C8 says that \<open>getTbs\<close> fails if and only if the body is absent or its \<open>tbs\<close> field
  is missing or the empty string. The test of line 166 is \<open>!response.data.tbs\<close>, which
  also rejects a \<open>tbs\<close> field that is present and is not the empty string: with the body
  \<open>{tbs: 0}\<close> the call fails.
\<close>

theorem getTbs_zero_token_fails:
  "get_prop (JObj [(''tbs'', JNum 0)]) ''tbs'' = Inr (JNum 0) \<and>
   fst (getTbs (always_responds (JObj [(''tbs'', JNum 0)])) ''secret'') = Inl (JsError TbsFailed)"
  using getTbs_constant_body[of "always_responds (JObj [(''tbs'', JNum 0)])" "''secret''" "JObj [(''tbs'', JNum 0)]"]
  by (simp add: always_responds_def opt_prop_def)

text \<open>
  Claim C8, amended. With the same 2xx response body at every attempt, \<open>getTbs\<close> fails
  if and only if the body is falsy (absent, \<open>null\<close>, the empty string, 0 or \<open>false\<close>) or
  its \<open>tbs\<close> field is falsy (missing, \<open>null\<close>, the empty string, 0 or \<open>false\<close>), and then
  it fails with the module's token error; when the \<open>tbs\<close> field is a non-empty string
  it returns exactly that string at the first attempt.
\<close>

theorem getTbs_contract:
  assumes "\<forall>i. axios (tbs_request b) i = Inr body"
  shows "((\<exists>e. fst (getTbs axios b) = Inl e) \<longleftrightarrow>
            \<not> truthy body \<or> \<not> truthy (opt_prop body ''tbs'')) \<and>
         (\<not> truthy body \<or> \<not> truthy (opt_prop body ''tbs'') \<longrightarrow>
            fst (getTbs axios b) = Inl (JsError TbsFailed)) \<and>
         (\<forall>s. opt_prop body ''tbs'' = JStr s \<and> s \<noteq> [] \<longrightarrow>
            getTbs axios b = (Inr (JStr s), [Invoke 0]))"
proof -
  have "truthy body" if "opt_prop body ''tbs'' = JStr s" for s
    using that by (cases body) (simp_all add: opt_prop_def)
  then show ?thesis
    using getTbs_constant_body[of axios b body] assms by auto
qed

theorem getTbs_contract_witness:
  "getTbs (always_responds (JObj [(''tbs'', JStr ''abc123'')])) ''secret'' = (Inr (JStr ''abc123''), [Invoke 0]) \<and>
   fst (getTbs (always_responds (JObj [(''tbs'', JStr [])])) ''secret'') = Inl (JsError TbsFailed) \<and>
   fst (getTbs (always_responds (JObj [])) ''secret'') = Inl (JsError TbsFailed) \<and>
   fst (getTbs (always_responds JNull) ''secret'') = Inl (JsError TbsFailed)"
  using getTbs_contract[of "always_responds (JObj [(''tbs'', JStr ''abc123'')])" "''secret''" "JObj [(''tbs'', JStr ''abc123'')]"]
    getTbs_contract[of "always_responds (JObj [(''tbs'', JStr [])])" "''secret''" "JObj [(''tbs'', JStr [])]"]
    getTbs_contract[of "always_responds (JObj [])" "''secret''" "JObj []"]
    getTbs_contract[of "always_responds JNull" "''secret''" "JNull"]
  by (simp add: always_responds_def opt_prop_def)

section \<open>Properties of signTieba\<close>

lemma signTieba_constant_body:
  assumes "\<forall>i. axios (sign_request tq b n t) i = Inr body"
  shows "signTieba axios tq b n t index =
     (if truthy body then (Inr body, [Invoke 0])
      else (Inl (JsError SignEmpty),
            [Invoke 0, WarnRetry Label_signTieba (Fin 6000) 1 3, Sleep (Fin 6000),
             Invoke 1, WarnRetry Label_signTieba (Fin 12000) 2 3, Sleep (Fin 12000),
             Invoke 2, WarnRetry Label_signTieba (Fin 24000) 3 3, Sleep (Fin 24000),
             Invoke 3, ConsoleError Label_signTieba 4 (JsError SignEmpty)]))"
proof (cases "truthy body")
  case True
  then have "signTieba_attempt (axios (sign_request tq b n t) 0) = Inr body"
    using assms by (simp add: signTieba_attempt_def)
  then show ?thesis using True by (simp add: signTieba_def withRetry_first_success)
next
  case False
  then have "\<forall>i. signTieba_attempt (axios (sign_request tq b n t) i) = Inl (JsError SignEmpty)"
    using assms by (simp add: signTieba_attempt_def)
  then show ?thesis using False by (simp add: signTieba_def default_policy_statusless_failure)
qed

text \<open>
  Claim C9 says that \<open>signTieba\<close> returns any non-null response body unchanged. The test
  of line 209 is \<open>!response.data\<close>, which also rejects the non-null bodies \<open>false\<close>, 0 and
  the empty string: with the JSON body \<open>false\<close> the call fails with the empty-response
  error.
\<close>

theorem signTieba_false_body_fails:
  "JBool False \<noteq> JNull \<and> JBool False \<noteq> JUndefined \<and>
   fst (signTieba (always_responds (JBool False)) sample_toQueryString ''secret'' ''forum'' ''tok'' 0)
     = Inl (JsError SignEmpty)"
  using signTieba_constant_body[of "always_responds (JBool False)" sample_toQueryString
           "''secret''" "''forum''" "''tok''" "JBool False" 0]
  by (simp add: always_responds_def)

text \<open>
  Claim C9, amended. For every credential, community name, token and index: a truthy
  response body (every JSON object and array, every non-empty string, every non-zero
  number, \<open>true\<close>) is returned unchanged; a falsy body (\<open>null\<close>, absent, the empty string,
  0, \<open>false\<close>) at every attempt makes the call fail with the empty-response error after
  four attempts; and the call, with the request it sends, is the same for any two values
  of the index argument, whatever the transport does.
\<close>

theorem signTieba_contract:
  "signTieba axios tq b n t index = signTieba axios tq b n t index' \<and>
   (axios (sign_request tq b n t) 0 = Inr body \<and> truthy body \<longrightarrow>
      signTieba axios tq b n t index = (Inr body, [Invoke 0])) \<and>
   ((\<forall>i. axios (sign_request tq b n t) i = Inr body) \<and> \<not> truthy body \<longrightarrow>
      fst (signTieba axios tq b n t index) = Inl (JsError SignEmpty) \<and>
      attempts (snd (signTieba axios tq b n t index)) = 4)"
proof (intro conjI impI)
  show "signTieba axios tq b n t index = signTieba axios tq b n t index'"
    by (simp add: signTieba_def)
next
  assume "axios (sign_request tq b n t) 0 = Inr body \<and> truthy body"
  then have "signTieba_attempt (axios (sign_request tq b n t) 0) = Inr body"
    by (simp add: signTieba_attempt_def)
  then show "signTieba axios tq b n t index = (Inr body, [Invoke 0])"
    by (simp add: signTieba_def withRetry_first_success)
next
  assume a: "(\<forall>i. axios (sign_request tq b n t) i = Inr body) \<and> \<not> truthy body"
  then show "fst (signTieba axios tq b n t index) = Inl (JsError SignEmpty)"
    by (simp add: signTieba_constant_body)
  from a show "attempts (snd (signTieba axios tq b n t index)) = 4"
    by (simp add: signTieba_constant_body)
qed

theorem signTieba_contract_witness:
  "signTieba (always_responds (JObj [(''error_code'', JStr ''0'')])) sample_toQueryString ''secret'' ''forum'' ''tok'' 7
     = (Inr (JObj [(''error_code'', JStr ''0'')]), [Invoke 0]) \<and>
   fst (signTieba (always_responds JNull) sample_toQueryString ''secret'' ''forum'' ''tok'' 7)
     = Inl (JsError SignEmpty)"
  using signTieba_contract[of "always_responds (JObj [(''error_code'', JStr ''0'')])" sample_toQueryString
           "''secret''" "''forum''" "''tok''" 7 7 "JObj [(''error_code'', JStr ''0'')]"]
    signTieba_contract[of "always_responds JNull" sample_toQueryString
           "''secret''" "''forum''" "''tok''" 7 7 "JNull"]
  by (simp add: always_responds_def)

end

